theory Spec2Isabelle
  imports Main "HOL-Library.AList" "HOL-Library.Multiset"
begin

section \<open>Audit policy checker (pkg/audit/policy/checker.go)\<close>

text \<open>
  A shallow embedding of the audit policy rule evaluator. Go strings are byte sequences
  and are modelled as \<open>string\<close> (a list of \<open>char\<close>); a slice is a list, and
  \<open>len(s) > 0\<close> is \<open>s \<noteq> []\<close> (a nil slice and an empty one are both \<open>[]\<close>).
  A pointer that may be nil is an \<open>option\<close>, a panic is the \<open>Inl\<close> of a sum, and
  the process's standard output is a string that the printing functions extend.
\<close>

subsection \<open>The functions of Go's \<open>strings\<close> package that the checker calls\<close>

fun HasPrefix :: "string \<Rightarrow> string \<Rightarrow> bool" where
  "HasPrefix s [] = True"
| "HasPrefix [] (p # ps) = False"
| "HasPrefix (c # cs) (p # ps) = (c = p \<and> HasPrefix cs ps)"

definition HasSuffix :: "string \<Rightarrow> string \<Rightarrow> bool" where
  "HasSuffix s suffix = HasPrefix (rev s) (rev suffix)"

definition TrimPrefix :: "string \<Rightarrow> string \<Rightarrow> string" where
  "TrimPrefix s p = (if HasPrefix s p then drop (length p) s else s)"

definition TrimSuffix :: "string \<Rightarrow> string \<Rightarrow> string" where
  "TrimSuffix s suffix = (if HasSuffix s suffix then take (length s - length suffix) s else s)"

text \<open>
  \<open>strings.TrimRight(s, cutset)\<close> removes every trailing character of \<open>s\<close> that is in
  \<open>cutset\<close>, not only the last one. The checker's cutset is the single ASCII byte
  \<open>*\<close>, which occurs in UTF-8 text only as that character, so bytes are exact here.
\<close>

definition TrimRight :: "string \<Rightarrow> string \<Rightarrow> string" where
  "TrimRight s cutset = rev (dropWhile (\<lambda>c. c \<in> set cutset) (rev s))"

subsection \<open>Data model: the audit API types and the request attributes\<close>

type_synonym Stage = string
type_synonym Level = string

text \<open>
  Modelled from the spec: the package \<open>k8s.io/apiserver/pkg/apis/audit\<close> that declares
  \<open>Level\<close>, \<open>Stage\<close>, \<open>Policy\<close>, \<open>PolicyRule\<close> and \<open>GroupResources\<close> is
  not among the sources. \<open>Level\<close> and \<open>Stage\<close> are string types (the checker converts
  them with \<open>string(...)\<close>), and the no-auditing level is the one the spec writes "None".
\<close>

definition LevelNone :: Level where
  "LevelNone = ''None''"

definition DefaultAuditLevel :: Level where
  "DefaultAuditLevel = LevelNone"

record GroupResources =
  gr_Group :: string
  gr_Resources :: "string list"
  gr_ResourceNames :: "string list"

record PolicyRule =
  rule_Level :: Level
  rule_Users :: "string list"
  rule_UserGroups :: "string list"
  rule_Verbs :: "string list"
  rule_Resources :: "GroupResources list"
  rule_Namespaces :: "string list"
  rule_NonResourceURLs :: "string list"
  rule_OmitStages :: "Stage list"
  rule_OmitManagedFields :: "bool option"

record Policy =
  policy_Rules :: "PolicyRule list"
  policy_OmitStages :: "Stage list"
  policy_OmitManagedFields :: bool

text \<open>
  \<open>user.Info\<close> and \<open>authorizer.Attributes\<close> are interfaces; the model keeps what
  their getters return. \<open>GetUser\<close> returns nil for a request without an identity.
\<close>

record UserInfo =
  Info_GetName :: string
  Info_GetGroups :: "string list"

record Attributes =
  GetUser :: "UserInfo option"
  GetVerb :: string
  IsReadOnly :: bool
  GetNamespace :: string
  GetResource :: string
  GetSubresource :: string
  GetName :: string
  GetAPIGroup :: string
  GetAPIVersion :: string
  IsResourceRequest :: bool
  GetPath :: string

record RequestAuditConfig =
  cfg_OmitStages :: "Stage list"
  cfg_OmitManagedFields :: bool

record RequestAuditConfigWithLevel =
  cfgl_RequestAuditConfig :: RequestAuditConfig
  cfgl_Level :: Level

subsection \<open>Rule matching\<close>

fun hasString :: "string list \<Rightarrow> string \<Rightarrow> bool" where
  "hasString [] v = False"
| "hasString (s # slice) v = (if s = v then True else hasString slice v)"

definition pathMatches :: "string \<Rightarrow> string \<Rightarrow> bool" where
  "pathMatches path spec =
     (if spec = ''*'' then True
      else if spec = path then True
      else if HasSuffix spec ''*'' \<and> HasPrefix path (TrimRight spec ''*'') then True
      else False)"

fun pathLoop :: "string \<Rightarrow> string list \<Rightarrow> bool" where
  "pathLoop path [] = False"
| "pathLoop path (spec # specs) = (if pathMatches path spec then True else pathLoop path specs)"

definition ruleMatchesNonResource :: "PolicyRule \<Rightarrow> Attributes \<Rightarrow> bool" where
  "ruleMatchesNonResource r attrs =
     (if IsResourceRequest attrs then False
      else pathLoop (GetPath attrs) (rule_NonResourceURLs r))"

text \<open>
  The inner loop of \<open>ruleMatchesResource\<close> over the resource specs of one group;
  \<open>names\<close> is \<open>gr.ResourceNames\<close>.
\<close>

fun resLoop :: "string list \<Rightarrow> string \<Rightarrow> string \<Rightarrow> string \<Rightarrow> string \<Rightarrow> string list \<Rightarrow> bool" where
  "resLoop names name resource subresource combinedResource [] = False"
| "resLoop names name resource subresource combinedResource (res # rest) =
     (if (names = [] \<or> hasString names name) \<and>
         ((res = combinedResource \<or> res = ''*'') \<or>
          (subresource \<noteq> [] \<and> HasPrefix res ''*/'' \<and> subresource = TrimPrefix res ''*/'') \<or>
          (HasSuffix res ''/*'' \<and> resource = TrimSuffix res ''/*''))
      then True
      else resLoop names name resource subresource combinedResource rest)"

text \<open>The outer loop over the rule's \<open>GroupResources\<close>.\<close>

fun grLoop :: "string \<Rightarrow> string \<Rightarrow> string \<Rightarrow> string \<Rightarrow> string \<Rightarrow> GroupResources list \<Rightarrow> bool" where
  "grLoop apiGroup name resource subresource combinedResource [] = False"
| "grLoop apiGroup name resource subresource combinedResource (gr # grs) =
     (if gr_Group gr = apiGroup then
        (if gr_Resources gr = [] then True
         else if resLoop (gr_ResourceNames gr) name resource subresource combinedResource
                   (gr_Resources gr)
         then True
         else grLoop apiGroup name resource subresource combinedResource grs)
      else grLoop apiGroup name resource subresource combinedResource grs)"

definition ruleMatchesResource :: "PolicyRule \<Rightarrow> Attributes \<Rightarrow> bool" where
  "ruleMatchesResource r attrs =
     (if \<not> IsResourceRequest attrs then False
      else if rule_Namespaces r \<noteq> [] \<and> \<not> hasString (rule_Namespaces r) (GetNamespace attrs)
      then False
      else if rule_Resources r = [] then True
      else
        (let apiGroup = GetAPIGroup attrs;
             resource = GetResource attrs;
             subresource = GetSubresource attrs;
             combinedResource =
               (if subresource \<noteq> [] then resource @ ''/'' @ subresource else resource);
             name = GetName attrs
         in grLoop apiGroup name resource subresource combinedResource (rule_Resources r)))"

text \<open>The loop of \<open>ruleMatches\<close> over the requester's groups.\<close>

fun groupLoop :: "string list \<Rightarrow> string list \<Rightarrow> bool" where
  "groupLoop userGroups [] = False"
| "groupLoop userGroups (g # gs) = (if hasString userGroups g then True else groupLoop userGroups gs)"

definition ruleMatches :: "PolicyRule \<Rightarrow> Attributes \<Rightarrow> bool" where
  "ruleMatches r attrs =
     (let user = GetUser attrs in
      if rule_Users r \<noteq> [] \<and>
         (case user of None \<Rightarrow> True | Some u \<Rightarrow> \<not> hasString (rule_Users r) (Info_GetName u))
      then False
      else if rule_UserGroups r \<noteq> [] \<and>
         (case user of None \<Rightarrow> True | Some u \<Rightarrow> \<not> groupLoop (rule_UserGroups r) (Info_GetGroups u))
      then False
      else if rule_Verbs r \<noteq> [] \<and> \<not> hasString (rule_Verbs r) (GetVerb attrs) then False
      else if rule_Namespaces r \<noteq> [] \<or> rule_Resources r \<noteq> [] then ruleMatchesResource r attrs
      else if rule_NonResourceURLs r \<noteq> [] then ruleMatchesNonResource r attrs
      else True)"

subsection \<open>Normalization: merging the policy-wide stages into every rule\<close>

text \<open>
  \<open>unionStages\<close> collects the stages as the keys of a Go map and reads them back with
  \<open>range\<close>. The map is an association list with one entry per key; Go leaves the
  order of \<open>range\<close> over a map unspecified, so the order is the parameter
  \<open>rangeOrder\<close>, which rearranges the keys.
\<close>

definition unionStages :: "(Stage list \<Rightarrow> Stage list) \<Rightarrow> Stage list list \<Rightarrow> Stage list" where
  "unionStages rangeOrder stageLists =
     (let m = fold (\<lambda>sl m. fold (\<lambda>s m. AList.update s True m) sl m) stageLists []
      in rangeOrder (map fst m))"

text \<open>
  The first loop of \<open>NewPolicyRuleEvaluator\<close>, which overwrites \<open>policy.Rules[i].OmitStages\<close>
  in place; \<open>rangeOrder i\<close> is the order in which the \<open>i\<close>-th call of \<open>unionStages\<close>
  reads its map.
\<close>

fun normalizeLoop :: "(nat \<Rightarrow> Stage list \<Rightarrow> Stage list) \<Rightarrow> nat \<Rightarrow> Stage list \<Rightarrow> PolicyRule list \<Rightarrow> PolicyRule list" where
  "normalizeLoop rangeOrder i policyOmitStages [] = []"
| "normalizeLoop rangeOrder i policyOmitStages (rule # rules) =
     rule\<lparr>rule_OmitStages := unionStages (rangeOrder i) [policyOmitStages, rule_OmitStages rule]\<rparr>
       # normalizeLoop rangeOrder (Suc i) policyOmitStages rules"

subsection \<open>The dump of the rules that \<open>NewPolicyRuleEvaluator\<close> prints\<close>

datatype panic = NilPointerDereference

definition nl :: string where
  "nl = [CHR 0x0A]"

definition tab :: string where
  "tab = [CHR 0x09]"

definition separator :: string where
  "separator = replicate 63 (CHR ''='')"

definition fmt_bool :: "bool \<Rightarrow> string" where
  "fmt_bool b = (if b then ''true'' else ''false'')"

text \<open>
  The \<open>strings.Builder\<close> is a string that each write extends. \<open>writeList b prefix xs\<close>
  is the loop that writes \<open>prefix\<close>, the element and a newline for every element.
\<close>

definition writeList :: "string \<Rightarrow> string \<Rightarrow> string list \<Rightarrow> string" where
  "writeList b prefix xs = fold (\<lambda>x b. b @ prefix @ x @ nl) xs b"

definition writeGroupResources :: "string \<Rightarrow> GroupResources \<Rightarrow> string" where
  "writeGroupResources b resource =
     (let b = b @ ''  - Group: '' @ gr_Group resource @ nl;
          b = b @ ''    Resources:'' @ nl;
          b = writeList b ''    - '' (gr_Resources resource);
          b = b @ ''    ResourcesNames:'' @ nl
      in writeList b ''    - '' (gr_ResourceNames resource))"

text \<open>
  One iteration of the loop over \<open>policy.Rules\<close>. Its last write dereferences
  \<open>rule.OmitManagedFields\<close> without a nil check: a nil pointer panics.
\<close>

definition writeRule :: "string \<Rightarrow> PolicyRule \<Rightarrow> panic + string" where
  "writeRule b rule =
     (let b = b @ ''- Level: '' @ rule_Level rule @ nl;
          b = b @ ''  Users:'' @ nl;
          b = writeList b ''  - '' (rule_Users rule);
          b = b @ ''  UserGroups:'' @ nl;
          b = writeList b ''  - '' (rule_UserGroups rule);
          b = b @ ''  Verbs:'' @ nl;
          b = writeList b ''  - '' (rule_Verbs rule);
          b = b @ ''  Resources:'' @ nl;
          b = fold (\<lambda>resource b. writeGroupResources b resource) (rule_Resources rule) b;
          b = b @ ''  Namespaces:'' @ nl;
          b = writeList b ''  - '' (rule_Namespaces rule);
          b = b @ ''  OmitStages:'' @ nl;
          b = writeList b ''  - '' (rule_OmitStages rule);
          b = b @ ''  OmitManagedFields:''
      in case rule_OmitManagedFields rule of
           None \<Rightarrow> Inl NilPointerDereference
         | Some v \<Rightarrow> Inr (b @ fmt_bool v @ nl))"

fun writeRules :: "string \<Rightarrow> PolicyRule list \<Rightarrow> panic + string" where
  "writeRules b [] = Inr b"
| "writeRules b (rule # rules) =
     (case writeRule b rule of Inl e \<Rightarrow> Inl e | Inr b' \<Rightarrow> writeRules b' rules)"

subsection \<open>The evaluators\<close>

record policyRuleEvaluator =
  ev_Policy :: Policy

text \<open>
  \<open>NewPolicyRuleEvaluator\<close> receives a pointer to the policy and the standard output
  written so far. It returns the policy as the pointer's target is left, the standard
  output, and the evaluator or the panic. The normalization loop has run before the
  dump is built, so the caller's policy is normalized also when the dump panics; the
  dump is printed only after the whole of it has been built.
\<close>

definition NewPolicyRuleEvaluator ::
  "(nat \<Rightarrow> Stage list \<Rightarrow> Stage list) \<Rightarrow> Policy \<Rightarrow> string \<Rightarrow> Policy \<times> string \<times> (panic + policyRuleEvaluator)" where
  "NewPolicyRuleEvaluator rangeOrder policy stdout =
     (let policy = policy\<lparr>policy_Rules :=
            normalizeLoop rangeOrder 0 (policy_OmitStages policy) (policy_Rules policy)\<rparr>;
          b = nl @ separator @ nl @ ''Rules:'' @ nl
      in case writeRules b (policy_Rules policy) of
           Inl e \<Rightarrow> (policy, stdout, Inl e)
         | Inr b \<Rightarrow>
             (let b = b @ nl @ separator @ nl
              in (policy, stdout @ b @ nl, Inr \<lparr>ev_Policy = policy\<rparr>)))"

record fakePolicyRuleEvaluator =
  fake_level :: Level
  fake_stage :: "Stage list"

definition NewFakePolicyRuleEvaluator :: "Level \<Rightarrow> Stage list \<Rightarrow> fakePolicyRuleEvaluator" where
  "NewFakePolicyRuleEvaluator level stage = \<lparr>fake_level = level, fake_stage = stage\<rparr>"

text \<open>
  What \<open>fmt.Printf\<close> writes at the start of \<open>EvaluatePolicyRule\<close>. The verb \<open>%s\<close>
  writes a string as it is and \<open>%t\<close> writes a boolean as \<open>true\<close> or \<open>false\<close>; how
  \<open>%s\<close> renders the \<open>user.Info\<close> value depends on its concrete type, so that
  rendering is the parameter \<open>fmtUser\<close>.
\<close>

definition attrsDump :: "(UserInfo option \<Rightarrow> string) \<Rightarrow> Attributes \<Rightarrow> string" where
  "attrsDump fmtUser attrs =
     nl @ nl @ separator @ nl @
     tab @ ''attrs:'' @ nl @
     tab @ tab @ ''User: '' @ fmtUser (GetUser attrs) @ nl @
     tab @ tab @ ''Verb: '' @ GetVerb attrs @ nl @
     tab @ tab @ ''IsReadOnly: '' @ fmt_bool (IsReadOnly attrs) @ nl @
     tab @ tab @ ''Namespace: '' @ GetNamespace attrs @ nl @
     tab @ tab @ ''Resource: '' @ GetResource attrs @ nl @
     tab @ tab @ ''Subresource: '' @ GetSubresource attrs @ nl @
     tab @ tab @ ''Name: '' @ GetName attrs @ nl @
     tab @ tab @ ''APIGroup: '' @ GetAPIGroup attrs @ nl @
     tab @ tab @ ''APIVersion: '' @ GetAPIVersion attrs @ nl @
     tab @ tab @ ''IsResourceRequest: '' @ fmt_bool (IsResourceRequest attrs) @ nl @
     tab @ tab @ ''Path: '' @ GetPath attrs @ nl @
     separator @ nl @ nl @ tab"

definition isOmitManagedFields :: "PolicyRule \<Rightarrow> bool \<Rightarrow> bool" where
  "isOmitManagedFields policyRule policyDefault =
     (case rule_OmitManagedFields policyRule of
        None \<Rightarrow> policyDefault
      | Some v \<Rightarrow> v)"

text \<open>The loop of \<open>EvaluatePolicyRule\<close> over \<open>p.Rules\<close>, and the return after it.\<close>

fun ruleLoop :: "Policy \<Rightarrow> Attributes \<Rightarrow> PolicyRule list \<Rightarrow> RequestAuditConfigWithLevel" where
  "ruleLoop p attrs [] =
     \<lparr>cfgl_RequestAuditConfig =
        \<lparr>cfg_OmitStages = policy_OmitStages p,
         cfg_OmitManagedFields = policy_OmitManagedFields p\<rparr>,
      cfgl_Level = DefaultAuditLevel\<rparr>"
| "ruleLoop p attrs (rule # rules) =
     (if ruleMatches rule attrs then
        \<lparr>cfgl_RequestAuditConfig =
           \<lparr>cfg_OmitStages = rule_OmitStages rule,
            cfg_OmitManagedFields = isOmitManagedFields rule (policy_OmitManagedFields p)\<rparr>,
         cfgl_Level = rule_Level rule\<rparr>
      else ruleLoop p attrs rules)"

text \<open>
  \<open>EvaluatePolicyRule\<close> of \<open>policyRuleEvaluator\<close>: the returned configuration and the
  standard output after the call.
\<close>

definition EvaluatePolicyRule ::
  "(UserInfo option \<Rightarrow> string) \<Rightarrow> policyRuleEvaluator \<Rightarrow> Attributes \<Rightarrow> string \<Rightarrow> RequestAuditConfigWithLevel \<times> string" where
  "EvaluatePolicyRule fmtUser p attrs stdout =
     (let stdout = stdout @ attrsDump fmtUser attrs
      in (ruleLoop (ev_Policy p) attrs (policy_Rules (ev_Policy p)), stdout))"

text \<open>
  \<open>EvaluatePolicyRule\<close> of \<open>fakePolicyRuleEvaluator\<close>. It prints nothing; the field
  \<open>OmitManagedFields\<close> is not set and has Go's zero value, false.
\<close>

definition fake_EvaluatePolicyRule :: "fakePolicyRuleEvaluator \<Rightarrow> Attributes \<Rightarrow> RequestAuditConfigWithLevel" where
  "fake_EvaluatePolicyRule f attrs =
     \<lparr>cfgl_RequestAuditConfig =
        \<lparr>cfg_OmitStages = fake_stage f, cfg_OmitManagedFields = False\<rparr>,
      cfgl_Level = fake_level f\<rparr>"

section \<open>Properties\<close>

subsection \<open>String functions and path matching\<close>

lemma HasPrefix_iff: "HasPrefix s p \<longleftrightarrow> (\<exists>t. s = p @ t)"
  by (induction s p rule: HasPrefix.induct) auto

lemma HasSuffix_iff: "HasSuffix s suf \<longleftrightarrow> (\<exists>t. s = t @ suf)"
proof
  assume "HasSuffix s suf"
  then obtain t where "rev s = rev suf @ t"
    by (auto simp: HasSuffix_def HasPrefix_iff)
  then have "s = rev t @ suf"
    by (metis rev_append rev_rev_ident)
  then show "\<exists>t. s = t @ suf" ..
next
  assume "\<exists>t. s = t @ suf"
  then show "HasSuffix s suf"
    by (auto simp: HasSuffix_def HasPrefix_iff)
qed

lemma HasSuffix_star: "HasSuffix spec ''*'' \<longleftrightarrow> spec \<noteq> [] \<and> last spec = CHR ''*''"
proof
  assume "HasSuffix spec ''*''"
  then show "spec \<noteq> [] \<and> last spec = CHR ''*''"
    by (auto simp: HasSuffix_iff)
next
  assume "spec \<noteq> [] \<and> last spec = CHR ''*''"
  then have "spec = butlast spec @ ''*''"
    by (metis append_butlast_last_id)
  then show "HasSuffix spec ''*''"
    unfolding HasSuffix_iff by blast
qed

lemma TrimRight_decomp: "s = TrimRight s cutset @ rev (takeWhile (\<lambda>c. c \<in> set cutset) (rev s))"
proof -
  have "rev (takeWhile (\<lambda>c. c \<in> set cutset) (rev s) @ dropWhile (\<lambda>c. c \<in> set cutset) (rev s)) = s"
    by (simp only: takeWhile_dropWhile_id rev_rev_ident)
  then show ?thesis
    by (simp only: rev_append TrimRight_def)
qed

lemma HasPrefix_TrimRight: "HasPrefix s (TrimRight s cutset)"
  unfolding HasPrefix_iff using TrimRight_decomp by blast

lemma TrimRight_snoc: "c \<in> set cutset \<Longrightarrow> TrimRight (xs @ [c]) cutset = TrimRight xs cutset"
  by (simp add: TrimRight_def)

lemma HasPrefix_trans: "HasPrefix s p \<Longrightarrow> HasPrefix p q \<Longrightarrow> HasPrefix s q"
  by (auto simp: HasPrefix_iff)

lemma pathMatches_star: "HasSuffix spec ''*'' \<Longrightarrow> pathMatches path spec = HasPrefix path (TrimRight spec ''*'')"
proof -
  assume suf: "HasSuffix spec ''*''"
  have "HasPrefix path (TrimRight spec ''*'')" if "spec = path"
    using that HasPrefix_TrimRight by simp
  moreover have "HasPrefix path (TrimRight spec ''*'')" if "spec = ''*''"
    using that by (simp add: TrimRight_def)
  ultimately show ?thesis
    using suf by (auto simp: pathMatches_def)
qed

lemma pathMatches_butlast:
  assumes "HasSuffix spec ''*''" "HasPrefix path (butlast spec)"
  shows "pathMatches path spec"
proof -
  from assms(1) have "spec = butlast spec @ ''*''"
    by (metis HasSuffix_star append_butlast_last_id)
  then have "TrimRight spec ''*'' = TrimRight (butlast spec) ''*''"
    by (metis TrimRight_snoc list.set_intros(1))
  then have "HasPrefix (butlast spec) (TrimRight spec ''*'')"
    by (metis HasPrefix_TrimRight)
  with assms(2) have "HasPrefix path (TrimRight spec ''*'')"
    by (rule HasPrefix_trans)
  with assms(1) show ?thesis
    by (simp add: pathMatches_star)
qed

lemma pathMatches_exact: "\<not> HasSuffix spec ''*'' \<Longrightarrow> pathMatches path spec = (path = spec)"
  by (auto simp: pathMatches_def HasSuffix_def)

text \<open>
  Claim C8 (non-resource path matching). The spec \<open>*\<close> matches every path. A spec
  that does not end in \<open>*\<close> matches exactly the path equal to it. A spec that ends in
  \<open>*\<close> matches every path that has the spec without its last \<open>*\<close> as a prefix;
  precisely, it matches the paths that have \<open>TrimRight spec ''*''\<close> as a prefix, the spec
  with all its trailing \<open>*\<close> removed. The spec \<open>/api*\<close> matches \<open>/api\<close> and
  \<open>/apis/foo\<close> and does not match \<open>/ap\<close>.
\<close>

theorem pathMatches_semantics:
  "pathMatches path ''*''
   \<and> (\<not> HasSuffix spec ''*'' \<longrightarrow> pathMatches path spec = (path = spec))
   \<and> (HasSuffix spec ''*'' \<and> HasPrefix path (butlast spec) \<longrightarrow> pathMatches path spec)
   \<and> (HasSuffix spec ''*'' \<longrightarrow> pathMatches path spec = HasPrefix path (TrimRight spec ''*''))
   \<and> pathMatches ''/api'' ''/api*''
   \<and> pathMatches ''/apis/foo'' ''/api*''
   \<and> \<not> pathMatches ''/ap'' ''/api*''"
proof -
  have "pathMatches path ''*''"
    by (simp add: pathMatches_def)
  moreover have "pathMatches ''/api'' ''/api*''"
    by (simp add: pathMatches_def HasSuffix_def TrimRight_def)
  moreover have "pathMatches ''/apis/foo'' ''/api*''"
    by (simp add: pathMatches_def HasSuffix_def TrimRight_def)
  moreover have "\<not> pathMatches ''/ap'' ''/api*''"
    by (simp add: pathMatches_def HasSuffix_def TrimRight_def)
  ultimately show ?thesis
    using pathMatches_exact pathMatches_butlast pathMatches_star by blast
qed

theorem pathMatches_semantics_witness:
  "HasSuffix ''/healthz*'' ''*'' \<and> HasPrefix ''/healthz/ping'' (butlast ''/healthz*'')
   \<and> pathMatches ''/healthz/ping'' ''/healthz*''
   \<and> \<not> HasSuffix ''/healthz'' ''*''
   \<and> \<not> pathMatches ''/health'' ''/healthz''"
  using pathMatches_semantics [of "''/healthz/ping''" "''/healthz*''"]
        pathMatches_semantics [of "''/health''" "''/healthz''"]
  by (simp add: HasSuffix_def)

subsection \<open>Resource and identity matching\<close>




text \<open>
  Claim C1 (the resource spec \<open>pods/*\<close>). A rule whose only predicate is the resource
  spec \<open>pods/*\<close> in the API group \<open>""\<close> matches every typed-resource request for
  the resource \<open>pods\<close> in that group, whatever the subresource is: the branch for
  \<open>resource/*\<close> compares the resource only and never looks at the subresource. So the
  rule matches a request with a subresource, and it also matches the request for plain
  \<open>pods\<close>, with the empty subresource, which the claim says it does not match.
\<close>

theorem pods_wildcard_matches_pods_for_every_subresource:
  "IsResourceRequest attrs \<Longrightarrow> GetAPIGroup attrs = '''' \<Longrightarrow> GetResource attrs = ''pods'' \<Longrightarrow>
   ruleMatches
     \<lparr>rule_Level = level, rule_Users = [], rule_UserGroups = [], rule_Verbs = [],
      rule_Resources = [\<lparr>gr_Group = '''', gr_Resources = [''pods/*''], gr_ResourceNames = []\<rparr>],
      rule_Namespaces = [], rule_NonResourceURLs = [], rule_OmitStages = omitStages,
      rule_OmitManagedFields = omitManagedFields\<rparr>
     attrs"
  by (simp add: ruleMatches_def ruleMatchesResource_def HasSuffix_def TrimSuffix_def)

theorem pods_wildcard_matches_plain_pods:
  "IsResourceRequest
     \<lparr>GetUser = None, GetVerb = ''get'', IsReadOnly = True, GetNamespace = ''default'',
      GetResource = ''pods'', GetSubresource = '''', GetName = ''web'', GetAPIGroup = '''',
      GetAPIVersion = ''v1'', IsResourceRequest = True, GetPath = ''''\<rparr>
   \<and> GetSubresource
     \<lparr>GetUser = None, GetVerb = ''get'', IsReadOnly = True, GetNamespace = ''default'',
      GetResource = ''pods'', GetSubresource = '''', GetName = ''web'', GetAPIGroup = '''',
      GetAPIVersion = ''v1'', IsResourceRequest = True, GetPath = ''''\<rparr> = ''''
   \<and> ruleMatches
     \<lparr>rule_Level = ''Metadata'', rule_Users = [], rule_UserGroups = [], rule_Verbs = [],
      rule_Resources = [\<lparr>gr_Group = '''', gr_Resources = [''pods/*''], gr_ResourceNames = []\<rparr>],
      rule_Namespaces = [], rule_NonResourceURLs = [], rule_OmitStages = [],
      rule_OmitManagedFields = None\<rparr>
     \<lparr>GetUser = None, GetVerb = ''get'', IsReadOnly = True, GetNamespace = ''default'',
      GetResource = ''pods'', GetSubresource = '''', GetName = ''web'', GetAPIGroup = '''',
      GetAPIVersion = ''v1'', IsResourceRequest = True, GetPath = ''''\<rparr>"
  using pods_wildcard_matches_pods_for_every_subresource
    [of "\<lparr>GetUser = None, GetVerb = ''get'', IsReadOnly = True, GetNamespace = ''default'',
      GetResource = ''pods'', GetSubresource = '''', GetName = ''web'', GetAPIGroup = '''',
      GetAPIVersion = ''v1'', IsResourceRequest = True, GetPath = ''''\<rparr>"
      "''Metadata''" "[]" None]
  by simp

text \<open>
  Claim C7 (fail-closed identity check). A rule that declares users or user groups does
  not match a request without a requester identity: \<open>ruleMatches\<close> returns false, and
  it has no other outcome than true or false.
\<close>

theorem anonymous_never_matches_identity_rule:
  "GetUser attrs = None \<Longrightarrow> rule_Users r \<noteq> [] \<or> rule_UserGroups r \<noteq> [] \<Longrightarrow>
   \<not> ruleMatches r attrs"
  by (auto simp: ruleMatches_def)

theorem anonymous_never_matches_identity_rule_witness:
  "GetUser
     \<lparr>GetUser = None, GetVerb = ''get'', IsReadOnly = True, GetNamespace = '''',
      GetResource = '''', GetSubresource = '''', GetName = '''', GetAPIGroup = '''',
      GetAPIVersion = '''', IsResourceRequest = False, GetPath = ''/healthz''\<rparr> = None
   \<and> rule_Users
     \<lparr>rule_Level = ''Metadata'', rule_Users = [''alice''], rule_UserGroups = [], rule_Verbs = [],
      rule_Resources = [], rule_Namespaces = [], rule_NonResourceURLs = [], rule_OmitStages = [],
      rule_OmitManagedFields = None\<rparr> \<noteq> []
   \<and> \<not> ruleMatches
     \<lparr>rule_Level = ''Metadata'', rule_Users = [''alice''], rule_UserGroups = [], rule_Verbs = [],
      rule_Resources = [], rule_Namespaces = [], rule_NonResourceURLs = [], rule_OmitStages = [],
      rule_OmitManagedFields = None\<rparr>
     \<lparr>GetUser = None, GetVerb = ''get'', IsReadOnly = True, GetNamespace = '''',
      GetResource = '''', GetSubresource = '''', GetName = '''', GetAPIGroup = '''',
      GetAPIVersion = '''', IsResourceRequest = False, GetPath = ''/healthz''\<rparr>"
  using anonymous_never_matches_identity_rule
    [of "\<lparr>GetUser = None, GetVerb = ''get'', IsReadOnly = True, GetNamespace = '''',
      GetResource = '''', GetSubresource = '''', GetName = '''', GetAPIGroup = '''',
      GetAPIVersion = '''', IsResourceRequest = False, GetPath = ''/healthz''\<rparr>"
        "\<lparr>rule_Level = ''Metadata'', rule_Users = [''alice''], rule_UserGroups = [], rule_Verbs = [],
      rule_Resources = [], rule_Namespaces = [], rule_NonResourceURLs = [], rule_OmitStages = [],
      rule_OmitManagedFields = None\<rparr>"]
  by simp



subsection \<open>Construction and normalization\<close>

lemma fold_update_keys_distinct:
  "distinct (map fst m) \<Longrightarrow> distinct (map fst (fold (\<lambda>s m. AList.update s True m) sl m))"
  by (induction sl arbitrary: m) (simp_all add: distinct_update)

lemma fold_update_keys_set:
  "set (map fst (fold (\<lambda>s m. AList.update s True m) sl m)) = set (map fst m) \<union> set sl"
proof (induction sl arbitrary: m)
  case Nil
  show ?case by simp
next
  case (Cons s sl)
  have "set (map fst (AList.update s True m)) = insert s (set (map fst m))"
    using dom_update [of s True m] by simp
  with Cons show ?case by simp
qed

lemma unionStages_two:
  assumes "mset (rangeOrder (map fst
      (fold (\<lambda>s m. AList.update s True m) b (fold (\<lambda>s m. AList.update s True m) a [])))) =
    mset (map fst (fold (\<lambda>s m. AList.update s True m) b (fold (\<lambda>s m. AList.update s True m) a [])))"
  shows "distinct (unionStages rangeOrder [a, b]) \<and> set (unionStages rangeOrder [a, b]) = set a \<union> set b"
proof -
  let ?m = "fold (\<lambda>s m. AList.update s True m) b (fold (\<lambda>s m. AList.update s True m) a [])"
  have u: "unionStages rangeOrder [a, b] = rangeOrder (map fst ?m)"
    by (simp add: unionStages_def)
  have d: "distinct (map fst ?m)"
    by (intro fold_update_keys_distinct) simp
  have s: "set (map fst ?m) = set a \<union> set b"
    by (simp only: fold_update_keys_set) simp
  from d have "distinct (rangeOrder (map fst ?m))"
    using mset_eq_imp_distinct_iff [OF assms] by blast
  moreover from assms have "set (rangeOrder (map fst ?m)) = set (map fst ?m)"
    by (rule mset_eq_setD)
  ultimately show ?thesis
    using u s by simp
qed

lemma length_normalizeLoop: "length (normalizeLoop rangeOrder i ps rules) = length rules"
  by (induction rules arbitrary: i) simp_all

lemma normalizeLoop_nth:
  "k < length rules \<Longrightarrow>
   normalizeLoop rangeOrder i ps rules ! k =
     (rules ! k)\<lparr>rule_OmitStages := unionStages (rangeOrder (i + k)) [ps, rule_OmitStages (rules ! k)]\<rparr>"
proof (induction rules arbitrary: i k)
  case Nil
  then show ?case by simp
next
  case (Cons rule rules)
  show ?case
  proof (cases k)
    case 0
    then show ?thesis by simp
  next
    case (Suc k')
    with Cons.prems have "k' < length rules" by simp
    from Cons.IH [OF this, of "Suc i"] Suc show ?thesis by simp
  qed
qed

lemma normalizeLoop_OmitManagedFields:
  "map rule_OmitManagedFields (normalizeLoop rangeOrder i ps rules) = map rule_OmitManagedFields rules"
  by (induction rules arbitrary: i) simp_all

lemma writeRule_None: "rule_OmitManagedFields rule = None \<Longrightarrow> writeRule b rule = Inl NilPointerDereference"
  by (simp add: writeRule_def Let_def)

lemma writeRule_Some: "rule_OmitManagedFields rule = Some v \<Longrightarrow> \<exists>b'. writeRule b rule = Inr b'"
  by (simp add: writeRule_def Let_def)

lemma writeRules_panics:
  "None \<in> set (map rule_OmitManagedFields rules) \<Longrightarrow> writeRules b rules = Inl NilPointerDereference"
proof (induction rules arbitrary: b)
  case Nil
  then show ?case by simp
next
  case (Cons rule rules)
  show ?case
  proof (cases "rule_OmitManagedFields rule")
    case None
    then show ?thesis by (simp add: writeRule_None)
  next
    case (Some v)
    then obtain b' where b': "writeRule b rule = Inr b'"
      using writeRule_Some by blast
    from Some Cons.prems have "None \<in> set (map rule_OmitManagedFields rules)" by auto
    from Cons.IH [OF this] b' show ?thesis by simp
  qed
qed

lemma writeRules_returns:
  "None \<notin> set (map rule_OmitManagedFields rules) \<Longrightarrow> \<exists>b'. writeRules b rules = Inr b'"
proof (induction rules arbitrary: b)
  case Nil
  then show ?case by simp
next
  case (Cons rule rules)
  then obtain v where "rule_OmitManagedFields rule = Some v"
    by (cases "rule_OmitManagedFields rule") auto
  then obtain b' where b': "writeRule b rule = Inr b'"
    using writeRule_Some by blast
  from Cons.prems have "None \<notin> set (map rule_OmitManagedFields rules)" by auto
  from Cons.IH [OF this] b' show ?case by simp
qed

lemma NewPolicyRuleEvaluator_policy:
  "fst (NewPolicyRuleEvaluator rangeOrder policy out) =
     policy\<lparr>policy_Rules := normalizeLoop rangeOrder 0 (policy_OmitStages policy) (policy_Rules policy)\<rparr>"
  by (simp add: NewPolicyRuleEvaluator_def Let_def split: sum.split)

lemma NewPolicyRuleEvaluator_Inr:
  "snd (snd (NewPolicyRuleEvaluator rangeOrder policy out)) = Inr ev \<Longrightarrow>
   ev_Policy ev = fst (NewPolicyRuleEvaluator rangeOrder policy out)"
  by (auto simp: NewPolicyRuleEvaluator_def Let_def split: sum.splits)

lemma NewPolicyRuleEvaluator_returns:
  assumes "None \<notin> set (map rule_OmitManagedFields (policy_Rules policy))"
  shows "\<exists>ev. snd (snd (NewPolicyRuleEvaluator rangeOrder policy out)) = Inr ev"
proof -
  from assms have "None \<notin> set (map rule_OmitManagedFields
      (normalizeLoop rangeOrder 0 (policy_OmitStages policy) (policy_Rules policy)))"
    by (simp add: normalizeLoop_OmitManagedFields)
  then obtain b' where "writeRules (nl @ separator @ nl @ ''Rules:'' @ nl)
      (normalizeLoop rangeOrder 0 (policy_OmitStages policy) (policy_Rules policy)) = Inr b'"
    using writeRules_returns by blast
  then show ?thesis
    by (simp add: NewPolicyRuleEvaluator_def Let_def)
qed

text \<open>
  Claim C2 (construction has no error condition). The claim fails on the code:
  \<open>NewPolicyRuleEvaluator\<close> panics with a nil pointer dereference for every policy
  that has a rule whose \<open>OmitManagedFields\<close> is nil, because the dump of the rules
  dereferences the pointer without a check. No evaluator is returned then.
\<close>

theorem NewPolicyRuleEvaluator_panics_on_nil_OmitManagedFields:
  "r \<in> set (policy_Rules policy) \<Longrightarrow> rule_OmitManagedFields r = None \<Longrightarrow>
   snd (snd (NewPolicyRuleEvaluator rangeOrder policy out)) = Inl NilPointerDereference"
proof -
  assume "r \<in> set (policy_Rules policy)" and "rule_OmitManagedFields r = None"
  then have "None \<in> set (map rule_OmitManagedFields (policy_Rules policy))"
    by force
  then have "None \<in> set (map rule_OmitManagedFields
      (normalizeLoop rangeOrder 0 (policy_OmitStages policy) (policy_Rules policy)))"
    by (simp only: normalizeLoop_OmitManagedFields)
  then have "writeRules (nl @ separator @ nl @ ''Rules:'' @ nl)
      (normalizeLoop rangeOrder 0 (policy_OmitStages policy) (policy_Rules policy)) =
      Inl NilPointerDereference"
    by (rule writeRules_panics)
  then show ?thesis
    by (simp add: NewPolicyRuleEvaluator_def Let_def)
qed

theorem NewPolicyRuleEvaluator_panics_at_rule_without_OmitManagedFields:
  "rule_OmitManagedFields
     \<lparr>rule_Level = ''Metadata'', rule_Users = [], rule_UserGroups = [], rule_Verbs = [''get''],
      rule_Resources = [\<lparr>gr_Group = '''', gr_Resources = [''pods''], gr_ResourceNames = []\<rparr>],
      rule_Namespaces = [], rule_NonResourceURLs = [], rule_OmitStages = [],
      rule_OmitManagedFields = None\<rparr> = None
   \<and> snd (snd (NewPolicyRuleEvaluator (\<lambda>i ks. ks)
       \<lparr>policy_Rules =
          [\<lparr>rule_Level = ''Metadata'', rule_Users = [], rule_UserGroups = [], rule_Verbs = [''get''],
            rule_Resources = [\<lparr>gr_Group = '''', gr_Resources = [''pods''], gr_ResourceNames = []\<rparr>],
            rule_Namespaces = [], rule_NonResourceURLs = [], rule_OmitStages = [],
            rule_OmitManagedFields = None\<rparr>],
        policy_OmitStages = [], policy_OmitManagedFields = False\<rparr> '''')) =
     Inl NilPointerDereference"
  using NewPolicyRuleEvaluator_panics_on_nil_OmitManagedFields
    [of "\<lparr>rule_Level = ''Metadata'', rule_Users = [], rule_UserGroups = [], rule_Verbs = [''get''],
      rule_Resources = [\<lparr>gr_Group = '''', gr_Resources = [''pods''], gr_ResourceNames = []\<rparr>],
      rule_Namespaces = [], rule_NonResourceURLs = [], rule_OmitStages = [],
      rule_OmitManagedFields = None\<rparr>"
     "\<lparr>policy_Rules =
          [\<lparr>rule_Level = ''Metadata'', rule_Users = [], rule_UserGroups = [], rule_Verbs = [''get''],
            rule_Resources = [\<lparr>gr_Group = '''', gr_Resources = [''pods''], gr_ResourceNames = []\<rparr>],
            rule_Namespaces = [], rule_NonResourceURLs = [], rule_OmitStages = [],
            rule_OmitManagedFields = None\<rparr>],
        policy_OmitStages = [], policy_OmitManagedFields = False\<rparr>"
     "\<lambda>i ks. ks" "''''"]
  by simp

subsection \<open>Evaluation\<close>

lemma ruleLoop_first:
  "\<forall>r\<in>set pre. \<not> ruleMatches r attrs \<Longrightarrow> ruleMatches r1 attrs \<Longrightarrow>
   ruleLoop p attrs (pre @ r1 # rest) =
     \<lparr>cfgl_RequestAuditConfig =
        \<lparr>cfg_OmitStages = rule_OmitStages r1,
         cfg_OmitManagedFields = isOmitManagedFields r1 (policy_OmitManagedFields p)\<rparr>,
      cfgl_Level = rule_Level r1\<rparr>"
  by (induction pre) simp_all

lemma ruleLoop_none:
  "\<forall>r\<in>set rules. \<not> ruleMatches r attrs \<Longrightarrow>
   ruleLoop p attrs rules =
     \<lparr>cfgl_RequestAuditConfig =
        \<lparr>cfg_OmitStages = policy_OmitStages p,
         cfg_OmitManagedFields = policy_OmitManagedFields p\<rparr>,
      cfgl_Level = DefaultAuditLevel\<rparr>"
  by (induction rules) simp_all

lemma ruleLoop_OmitStages:
  "cfg_OmitStages (cfgl_RequestAuditConfig (ruleLoop p attrs rules))
     \<in> insert (policy_OmitStages p) (rule_OmitStages ` set rules)"
  by (induction rules) auto

lemma attrsDump_nonempty: "attrsDump fmtUser attrs \<noteq> []"
  by (simp add: attrsDump_def nl_def)

lemma ruleLoop_first_index:
  assumes "i < length rules" and "ruleMatches (rules ! i) attrs"
  shows "\<exists>k\<le>i. ruleMatches (rules ! k) attrs \<and> (\<forall>m<k. \<not> ruleMatches (rules ! m) attrs) \<and>
     ruleLoop p attrs rules =
       \<lparr>cfgl_RequestAuditConfig =
          \<lparr>cfg_OmitStages = rule_OmitStages (rules ! k),
           cfg_OmitManagedFields = isOmitManagedFields (rules ! k) (policy_OmitManagedFields p)\<rparr>,
        cfgl_Level = rule_Level (rules ! k)\<rparr>"
proof -
  define k where "k = (LEAST k. ruleMatches (rules ! k) attrs)"
  have mk: "ruleMatches (rules ! k) attrs"
    unfolding k_def using assms(2) by (rule LeastI)
  have ki: "k \<le> i"
    unfolding k_def using assms(2) by (rule Least_le)
  have before: "\<not> ruleMatches (rules ! m) attrs" if "m < k" for m
    using that not_less_Least unfolding k_def by blast
  from ki assms(1) have klen: "k < length rules"
    by simp
  then have split: "rules = take k rules @ rules ! k # drop (Suc k) rules"
    by (rule id_take_nth_drop)
  have "\<forall>r\<in>set (take k rules). \<not> ruleMatches r attrs"
  proof
    fix r
    assume "r \<in> set (take k rules)"
    then obtain m where "m < length (take k rules)" and "take k rules ! m = r"
      by (auto simp: in_set_conv_nth)
    then have "m < k" and "rules ! m = r"
      by simp_all
    with before show "\<not> ruleMatches r attrs"
      by blast
  qed
  from ruleLoop_first [OF this mk, of p "drop (Suc k) rules"] split
  have "ruleLoop p attrs rules =
       \<lparr>cfgl_RequestAuditConfig =
          \<lparr>cfg_OmitStages = rule_OmitStages (rules ! k),
           cfg_OmitManagedFields = isOmitManagedFields (rules ! k) (policy_OmitManagedFields p)\<rparr>,
        cfgl_Level = rule_Level (rules ! k)\<rparr>"
    by simp
  with mk ki before show ?thesis
    by blast
qed

text \<open>
  Claim C6 (stage union closure). Whatever order the map of \<open>unionStages\<close> is read in,
  after \<open>NewPolicyRuleEvaluator\<close> the policy has as many rules as before, and the
  \<open>OmitStages\<close> of each rule has no duplicates and is, as a set, the union of the
  policy-wide \<open>OmitStages\<close> and the \<open>OmitStages\<close> the rule declared. The evaluator
  that is returned holds this normalized policy. Evaluation merges nothing: the
  \<open>OmitStages\<close> it returns is the list stored in one of the rules or in the policy.
\<close>

theorem stage_union_closure:
  assumes "\<forall>i ks. mset (rangeOrder i ks) = mset ks"
  shows "length (policy_Rules (fst (NewPolicyRuleEvaluator rangeOrder policy out))) =
       length (policy_Rules policy)
     \<and> (\<forall>k<length (policy_Rules policy).
          distinct (rule_OmitStages (policy_Rules (fst (NewPolicyRuleEvaluator rangeOrder policy out)) ! k))
        \<and> set (rule_OmitStages (policy_Rules (fst (NewPolicyRuleEvaluator rangeOrder policy out)) ! k)) =
            set (policy_OmitStages policy) \<union> set (rule_OmitStages (policy_Rules policy ! k)))
     \<and> (\<forall>ev. snd (snd (NewPolicyRuleEvaluator rangeOrder policy out)) = Inr ev \<longrightarrow>
          ev_Policy ev = fst (NewPolicyRuleEvaluator rangeOrder policy out))
     \<and> cfg_OmitStages (cfgl_RequestAuditConfig (fst (EvaluatePolicyRule fmtUser p attrs out')))
         \<in> insert (policy_OmitStages (ev_Policy p))
             (rule_OmitStages ` set (policy_Rules (ev_Policy p)))"
proof -
  let ?rules' = "policy_Rules (fst (NewPolicyRuleEvaluator rangeOrder policy out))"
  have rules': "?rules' = normalizeLoop rangeOrder 0 (policy_OmitStages policy) (policy_Rules policy)"
    by (simp add: NewPolicyRuleEvaluator_policy)
  have len: "length ?rules' = length (policy_Rules policy)"
    by (simp only: rules' length_normalizeLoop)
  have each: "distinct (rule_OmitStages (?rules' ! k)) \<and>
      set (rule_OmitStages (?rules' ! k)) =
        set (policy_OmitStages policy) \<union> set (rule_OmitStages (policy_Rules policy ! k))"
    if "k < length (policy_Rules policy)" for k
  proof -
    have "rule_OmitStages (?rules' ! k) =
        unionStages (rangeOrder k) [policy_OmitStages policy, rule_OmitStages (policy_Rules policy ! k)]"
      using that by (simp add: rules' normalizeLoop_nth)
    moreover from assms have "mset (rangeOrder k ks) = mset ks" for ks
      by blast
    ultimately show ?thesis
      using unionStages_two [of "rangeOrder k"] by simp
  qed
  have ev: "ev_Policy ev = fst (NewPolicyRuleEvaluator rangeOrder policy out)"
    if "snd (snd (NewPolicyRuleEvaluator rangeOrder policy out)) = Inr ev" for ev
    using that by (rule NewPolicyRuleEvaluator_Inr)
  have verbatim: "cfg_OmitStages (cfgl_RequestAuditConfig (fst (EvaluatePolicyRule fmtUser p attrs out')))
         \<in> insert (policy_OmitStages (ev_Policy p))
             (rule_OmitStages ` set (policy_Rules (ev_Policy p)))"
    using ruleLoop_OmitStages [of "ev_Policy p" attrs "policy_Rules (ev_Policy p)"]
    by (simp add: EvaluatePolicyRule_def Let_def)
  from len each ev verbatim show ?thesis
    by blast
qed

theorem stage_union_closure_witness:
  "rule_OmitStages (policy_Rules (fst (NewPolicyRuleEvaluator (\<lambda>i. rev)
       \<lparr>policy_Rules =
          [\<lparr>rule_Level = ''Metadata'', rule_Users = [], rule_UserGroups = [], rule_Verbs = [],
            rule_Resources = [], rule_Namespaces = [], rule_NonResourceURLs = [],
            rule_OmitStages = [''ResponseComplete'', ''RequestReceived'', ''ResponseComplete''],
            rule_OmitManagedFields = Some False\<rparr>],
        policy_OmitStages = [''RequestReceived''], policy_OmitManagedFields = False\<rparr> '''')) ! 0) =
     [''ResponseComplete'', ''RequestReceived'']
   \<and> distinct [''ResponseComplete'', ''RequestReceived'']
   \<and> set [''ResponseComplete'', ''RequestReceived''] =
       set [''RequestReceived''] \<union> set [''ResponseComplete'', ''RequestReceived'', ''ResponseComplete'']
   \<and> snd (snd (NewPolicyRuleEvaluator (\<lambda>i. rev)
       \<lparr>policy_Rules =
          [\<lparr>rule_Level = ''Metadata'', rule_Users = [], rule_UserGroups = [], rule_Verbs = [],
            rule_Resources = [], rule_Namespaces = [], rule_NonResourceURLs = [],
            rule_OmitStages = [''ResponseComplete'', ''RequestReceived'', ''ResponseComplete''],
            rule_OmitManagedFields = Some False\<rparr>],
        policy_OmitStages = [''RequestReceived''], policy_OmitManagedFields = False\<rparr> '''')) =
     Inr \<lparr>ev_Policy =
       \<lparr>policy_Rules =
          [\<lparr>rule_Level = ''Metadata'', rule_Users = [], rule_UserGroups = [], rule_Verbs = [],
            rule_Resources = [], rule_Namespaces = [], rule_NonResourceURLs = [],
            rule_OmitStages = [''ResponseComplete'', ''RequestReceived''],
            rule_OmitManagedFields = Some False\<rparr>],
        policy_OmitStages = [''RequestReceived''], policy_OmitManagedFields = False\<rparr>\<rparr>"
  using stage_union_closure
    [of "\<lambda>i. rev"
       "\<lparr>policy_Rules =
          [\<lparr>rule_Level = ''Metadata'', rule_Users = [], rule_UserGroups = [], rule_Verbs = [],
            rule_Resources = [], rule_Namespaces = [], rule_NonResourceURLs = [],
            rule_OmitStages = [''ResponseComplete'', ''RequestReceived'', ''ResponseComplete''],
            rule_OmitManagedFields = Some False\<rparr>],
        policy_OmitStages = [''RequestReceived''], policy_OmitManagedFields = False\<rparr>"
       "''''"]
  by (simp add: NewPolicyRuleEvaluator_def unionStages_def writeRule_def Let_def)

text \<open>
  Claim C3 (evaluation is pure). The claim fails on the code: every call of
  \<open>EvaluatePolicyRule\<close> prints a dump of the request attributes, so the standard
  output is not what it was before the call.
\<close>

theorem EvaluatePolicyRule_writes_standard_output:
  "snd (EvaluatePolicyRule (case_option ''<nil>'' Info_GetName)
     \<lparr>ev_Policy = \<lparr>policy_Rules = [], policy_OmitStages = [], policy_OmitManagedFields = False\<rparr>\<rparr>
     \<lparr>GetUser = None, GetVerb = ''get'', IsReadOnly = True, GetNamespace = '''',
      GetResource = '''', GetSubresource = '''', GetName = '''', GetAPIGroup = '''',
      GetAPIVersion = '''', IsResourceRequest = False, GetPath = ''/healthz''\<rparr> '''') \<noteq> ''''"
  by (simp add: EvaluatePolicyRule_def attrsDump_def nl_def)

text \<open>
  Claim C3 as amended. The configuration that \<open>EvaluatePolicyRule\<close> returns depends on
  the evaluator's policy and the request attributes only, not on what has been printed
  before nor on how the user is rendered, and the evaluator is not written; the one
  effect of a call is that the dump of the request attributes, which is never empty, is
  appended to the standard output.
\<close>

theorem EvaluatePolicyRule_result_deterministic_output_appended:
  "fst (EvaluatePolicyRule fmtUser1 p attrs out1) = fst (EvaluatePolicyRule fmtUser2 p attrs out2)
   \<and> snd (EvaluatePolicyRule fmtUser p attrs out) = out @ attrsDump fmtUser attrs
   \<and> attrsDump fmtUser attrs \<noteq> []"
  by (simp add: EvaluatePolicyRule_def Let_def attrsDump_nonempty)

text \<open>
  Claim C4 (first-match precedence). When the rules at positions \<open>i < j\<close> both match
  the request, \<open>EvaluatePolicyRule\<close> returns the configuration of the first rule in
  declaration order that matches, which stands at a position \<open>k \<le> i\<close>, before the
  later rule; when no rule before position \<open>i\<close> matches, that is the configuration of
  the rule at \<open>i\<close>. The configuration of a rule is its level, its \<open>OmitStages\<close> and
  its \<open>OmitManagedFields\<close>, or the policy's default where the rule sets none.
\<close>

theorem EvaluatePolicyRule_first_match_wins:
  assumes "i < j" and "j < length (policy_Rules (ev_Policy p))"
    and "ruleMatches (policy_Rules (ev_Policy p) ! i) attrs"
    and "ruleMatches (policy_Rules (ev_Policy p) ! j) attrs"
  shows "(\<exists>k\<le>i. ruleMatches (policy_Rules (ev_Policy p) ! k) attrs \<and>
           (\<forall>m<k. \<not> ruleMatches (policy_Rules (ev_Policy p) ! m) attrs) \<and>
           fst (EvaluatePolicyRule fmtUser p attrs out) =
             \<lparr>cfgl_RequestAuditConfig =
                \<lparr>cfg_OmitStages = rule_OmitStages (policy_Rules (ev_Policy p) ! k),
                 cfg_OmitManagedFields =
                   (case rule_OmitManagedFields (policy_Rules (ev_Policy p) ! k) of
                      None \<Rightarrow> policy_OmitManagedFields (ev_Policy p)
                    | Some v \<Rightarrow> v)\<rparr>,
              cfgl_Level = rule_Level (policy_Rules (ev_Policy p) ! k)\<rparr>)
     \<and> ((\<forall>m<i. \<not> ruleMatches (policy_Rules (ev_Policy p) ! m) attrs) \<longrightarrow>
           fst (EvaluatePolicyRule fmtUser p attrs out) =
             \<lparr>cfgl_RequestAuditConfig =
                \<lparr>cfg_OmitStages = rule_OmitStages (policy_Rules (ev_Policy p) ! i),
                 cfg_OmitManagedFields =
                   (case rule_OmitManagedFields (policy_Rules (ev_Policy p) ! i) of
                      None \<Rightarrow> policy_OmitManagedFields (ev_Policy p)
                    | Some v \<Rightarrow> v)\<rparr>,
              cfgl_Level = rule_Level (policy_Rules (ev_Policy p) ! i)\<rparr>)"
proof -
  let ?rules = "policy_Rules (ev_Policy p)"
  let ?cfg = "\<lambda>k. \<lparr>cfgl_RequestAuditConfig =
                \<lparr>cfg_OmitStages = rule_OmitStages (?rules ! k),
                 cfg_OmitManagedFields =
                   (case rule_OmitManagedFields (?rules ! k) of
                      None \<Rightarrow> policy_OmitManagedFields (ev_Policy p)
                    | Some v \<Rightarrow> v)\<rparr>,
              cfgl_Level = rule_Level (?rules ! k)\<rparr>"
  from assms(1,2) have "i < length ?rules"
    by simp
  from ruleLoop_first_index [OF this assms(3), of "ev_Policy p"]
  obtain k where k: "k \<le> i" "ruleMatches (?rules ! k) attrs"
      "\<forall>m<k. \<not> ruleMatches (?rules ! m) attrs"
      "fst (EvaluatePolicyRule fmtUser p attrs out) = ?cfg k"
    by (auto simp: EvaluatePolicyRule_def Let_def isOmitManagedFields_def)
  have "k = i" if "\<forall>m<i. \<not> ruleMatches (?rules ! m) attrs"
    using that k(1,2) by (cases "k < i") auto
  with k show ?thesis
    by blast
qed

theorem EvaluatePolicyRule_first_match_wins_witness:
  "ruleMatches
     \<lparr>rule_Level = ''Metadata'', rule_Users = [], rule_UserGroups = [], rule_Verbs = [''get''],
      rule_Resources = [], rule_Namespaces = [], rule_NonResourceURLs = [],
      rule_OmitStages = [''RequestReceived''], rule_OmitManagedFields = Some True\<rparr>
     \<lparr>GetUser = None, GetVerb = ''get'', IsReadOnly = True, GetNamespace = ''default'',
      GetResource = ''pods'', GetSubresource = '''', GetName = ''web'', GetAPIGroup = '''',
      GetAPIVersion = ''v1'', IsResourceRequest = True, GetPath = ''''\<rparr>
   \<and> ruleMatches
     \<lparr>rule_Level = ''Request'', rule_Users = [], rule_UserGroups = [], rule_Verbs = [],
      rule_Resources = [], rule_Namespaces = [], rule_NonResourceURLs = [],
      rule_OmitStages = [], rule_OmitManagedFields = None\<rparr>
     \<lparr>GetUser = None, GetVerb = ''get'', IsReadOnly = True, GetNamespace = ''default'',
      GetResource = ''pods'', GetSubresource = '''', GetName = ''web'', GetAPIGroup = '''',
      GetAPIVersion = ''v1'', IsResourceRequest = True, GetPath = ''''\<rparr>
   \<and> fst (EvaluatePolicyRule (case_option ''<nil>'' Info_GetName)
       \<lparr>ev_Policy =
          \<lparr>policy_Rules =
             [\<lparr>rule_Level = ''RequestResponse'', rule_Users = [], rule_UserGroups = [],
               rule_Verbs = [''delete''], rule_Resources = [], rule_Namespaces = [],
               rule_NonResourceURLs = [], rule_OmitStages = [], rule_OmitManagedFields = None\<rparr>,
              \<lparr>rule_Level = ''Metadata'', rule_Users = [], rule_UserGroups = [],
               rule_Verbs = [''get''], rule_Resources = [], rule_Namespaces = [],
               rule_NonResourceURLs = [], rule_OmitStages = [''RequestReceived''],
               rule_OmitManagedFields = Some True\<rparr>,
              \<lparr>rule_Level = ''Request'', rule_Users = [], rule_UserGroups = [], rule_Verbs = [],
               rule_Resources = [], rule_Namespaces = [], rule_NonResourceURLs = [],
               rule_OmitStages = [], rule_OmitManagedFields = None\<rparr>],
           policy_OmitStages = [], policy_OmitManagedFields = False\<rparr>\<rparr>
       \<lparr>GetUser = None, GetVerb = ''get'', IsReadOnly = True, GetNamespace = ''default'',
        GetResource = ''pods'', GetSubresource = '''', GetName = ''web'', GetAPIGroup = '''',
        GetAPIVersion = ''v1'', IsResourceRequest = True, GetPath = ''''\<rparr> '''') =
     \<lparr>cfgl_RequestAuditConfig =
        \<lparr>cfg_OmitStages = [''RequestReceived''], cfg_OmitManagedFields = True\<rparr>,
      cfgl_Level = ''Metadata''\<rparr>"
  using EvaluatePolicyRule_first_match_wins
    [of 1 2
       "\<lparr>ev_Policy =
          \<lparr>policy_Rules =
             [\<lparr>rule_Level = ''RequestResponse'', rule_Users = [], rule_UserGroups = [],
               rule_Verbs = [''delete''], rule_Resources = [], rule_Namespaces = [],
               rule_NonResourceURLs = [], rule_OmitStages = [], rule_OmitManagedFields = None\<rparr>,
              \<lparr>rule_Level = ''Metadata'', rule_Users = [], rule_UserGroups = [],
               rule_Verbs = [''get''], rule_Resources = [], rule_Namespaces = [],
               rule_NonResourceURLs = [], rule_OmitStages = [''RequestReceived''],
               rule_OmitManagedFields = Some True\<rparr>,
              \<lparr>rule_Level = ''Request'', rule_Users = [], rule_UserGroups = [], rule_Verbs = [],
               rule_Resources = [], rule_Namespaces = [], rule_NonResourceURLs = [],
               rule_OmitStages = [], rule_OmitManagedFields = None\<rparr>],
           policy_OmitStages = [], policy_OmitManagedFields = False\<rparr>\<rparr>"
       "\<lparr>GetUser = None, GetVerb = ''get'', IsReadOnly = True, GetNamespace = ''default'',
        GetResource = ''pods'', GetSubresource = '''', GetName = ''web'', GetAPIGroup = '''',
        GetAPIVersion = ''v1'', IsResourceRequest = True, GetPath = ''''\<rparr>"
       "case_option ''<nil>'' Info_GetName" "''''"]
  by (simp add: ruleMatches_def EvaluatePolicyRule_def isOmitManagedFields_def)

text \<open>
  Claim C5 (default when no rule matches). When no rule of the evaluator's policy
  matches the request, \<open>EvaluatePolicyRule\<close> returns the level \<open>LevelNone\<close>, the
  policy-wide \<open>OmitStages\<close> and the policy-wide \<open>OmitManagedFields\<close>.
\<close>

theorem EvaluatePolicyRule_default_when_no_rule_matches:
  assumes "\<forall>r\<in>set (policy_Rules (ev_Policy p)). \<not> ruleMatches r attrs"
  shows "fst (EvaluatePolicyRule fmtUser p attrs out) =
     \<lparr>cfgl_RequestAuditConfig =
        \<lparr>cfg_OmitStages = policy_OmitStages (ev_Policy p),
         cfg_OmitManagedFields = policy_OmitManagedFields (ev_Policy p)\<rparr>,
      cfgl_Level = LevelNone\<rparr>"
  using ruleLoop_none [OF assms, of "ev_Policy p"]
  by (simp add: EvaluatePolicyRule_def Let_def DefaultAuditLevel_def)

theorem EvaluatePolicyRule_default_when_no_rule_matches_witness:
  "\<not> ruleMatches
     \<lparr>rule_Level = ''Metadata'', rule_Users = [], rule_UserGroups = [], rule_Verbs = [''get''],
      rule_Resources = [\<lparr>gr_Group = '''', gr_Resources = [''pods''], gr_ResourceNames = []\<rparr>],
      rule_Namespaces = [], rule_NonResourceURLs = [], rule_OmitStages = [],
      rule_OmitManagedFields = Some False\<rparr>
     \<lparr>GetUser = None, GetVerb = ''list'', IsReadOnly = True, GetNamespace = ''default'',
      GetResource = ''pods'', GetSubresource = '''', GetName = '''', GetAPIGroup = '''',
      GetAPIVersion = ''v1'', IsResourceRequest = True, GetPath = ''''\<rparr>
   \<and> fst (EvaluatePolicyRule (case_option ''<nil>'' Info_GetName)
       \<lparr>ev_Policy =
          \<lparr>policy_Rules =
             [\<lparr>rule_Level = ''Metadata'', rule_Users = [], rule_UserGroups = [],
               rule_Verbs = [''get''],
               rule_Resources = [\<lparr>gr_Group = '''', gr_Resources = [''pods''], gr_ResourceNames = []\<rparr>],
               rule_Namespaces = [], rule_NonResourceURLs = [], rule_OmitStages = [],
               rule_OmitManagedFields = Some False\<rparr>],
           policy_OmitStages = [''RequestReceived''], policy_OmitManagedFields = True\<rparr>\<rparr>
       \<lparr>GetUser = None, GetVerb = ''list'', IsReadOnly = True, GetNamespace = ''default'',
        GetResource = ''pods'', GetSubresource = '''', GetName = '''', GetAPIGroup = '''',
        GetAPIVersion = ''v1'', IsResourceRequest = True, GetPath = ''''\<rparr> '''') =
     \<lparr>cfgl_RequestAuditConfig =
        \<lparr>cfg_OmitStages = [''RequestReceived''], cfg_OmitManagedFields = True\<rparr>,
      cfgl_Level = ''None''\<rparr>"
  using EvaluatePolicyRule_default_when_no_rule_matches
    [of "\<lparr>ev_Policy =
          \<lparr>policy_Rules =
             [\<lparr>rule_Level = ''Metadata'', rule_Users = [], rule_UserGroups = [],
               rule_Verbs = [''get''],
               rule_Resources = [\<lparr>gr_Group = '''', gr_Resources = [''pods''], gr_ResourceNames = []\<rparr>],
               rule_Namespaces = [], rule_NonResourceURLs = [], rule_OmitStages = [],
               rule_OmitManagedFields = Some False\<rparr>],
           policy_OmitStages = [''RequestReceived''], policy_OmitManagedFields = True\<rparr>\<rparr>"
       "\<lparr>GetUser = None, GetVerb = ''list'', IsReadOnly = True, GetNamespace = ''default'',
        GetResource = ''pods'', GetSubresource = '''', GetName = '''', GetAPIGroup = '''',
        GetAPIVersion = ''v1'', IsResourceRequest = True, GetPath = ''''\<rparr>"
       "case_option ''<nil>'' Info_GetName" "''''"]
  by (simp add: ruleMatches_def LevelNone_def)

text \<open>
  Claim C9 (the constant evaluator). The evaluator made by
  \<open>NewFakePolicyRuleEvaluator level stage\<close> returns the same configuration for every
  two requests: the level and the stages it was made with, and \<open>OmitManagedFields\<close>
  false.
\<close>

theorem fake_evaluator_constant:
  "fake_EvaluatePolicyRule (NewFakePolicyRuleEvaluator level stage) attrs1 =
     fake_EvaluatePolicyRule (NewFakePolicyRuleEvaluator level stage) attrs2
   \<and> fake_EvaluatePolicyRule (NewFakePolicyRuleEvaluator level stage) attrs1 =
     \<lparr>cfgl_RequestAuditConfig = \<lparr>cfg_OmitStages = stage, cfg_OmitManagedFields = False\<rparr>,
      cfgl_Level = level\<rparr>"
  by (simp add: fake_EvaluatePolicyRule_def NewFakePolicyRuleEvaluator_def)

end
